theory Spec2Isabelle
  imports Complex_Main "HOL-Library.Word"
begin

section \<open>The collaborative editor: client (frontend/src/App.jsx) and server (backend/index.js)\<close>

text \<open>
  The React component \<open>App\<close> keeps fourteen state variables, registers six socket
  listeners once, one window listener, and defines the click and change handlers of its
  two screens. Each handler is embedded as a function from the component state to the
  new state and the list of effects it requests (socket emissions, timers, console
  output, clipboard writes), in the order the source issues them. Of the server, the
  \<open>compileCode\<close> handler is embedded: it decides which \<open>codeResponse\<close> payloads
  reach the client.
\<close>

subsection \<open>JavaScript strings and values\<close>

text \<open>
  A JavaScript string is a sequence of UTF-16 code units; \<open>length\<close> and \<open>slice\<close>
  count code units. The literals of the source are ASCII and are written with \<open>lit\<close>.
\<close>

type_synonym code_unit = "16 word"
type_synonym jsstring = "code_unit list"

definition lit :: "string \<Rightarrow> jsstring" where
  "lit cs = map of_char cs"

text \<open>
  Values that arrive in a socket payload or are sent in one. An object is the list of
  its own properties in insertion order (property names are distinct).
\<close>

datatype jsval =
    JUndefined
  | JNull
  | JBool bool
  | JNum rat
  | JStr jsstring
  | JArr "jsval list"
  | JObj "(jsstring \<times> jsval) list"

datatype js_error = TypeError

text \<open>
  Property read \<open>v.k\<close>. Reading a property of \<open>undefined\<close> or \<open>null\<close> throws a
  TypeError; reading a name an object does not have yields \<open>undefined\<close>. The source reads
  only the names \<open>run\<close> and \<open>output\<close>, which no builtin prototype defines, so on a
  boolean, number, string or array the read yields \<open>undefined\<close> as well.
\<close>

fun getProp :: "jsval \<Rightarrow> jsstring \<Rightarrow> js_error + jsval" where
  "getProp JUndefined k = Inl TypeError"
| "getProp JNull k = Inl TypeError"
| "getProp (JObj kvs) k = (case map_of kvs k of Some v \<Rightarrow> Inr v | None \<Rightarrow> Inr JUndefined)"
| "getProp v k = Inr JUndefined"

text \<open>
  \<open>String.prototype.slice(start, end)\<close> for integer arguments: a negative index counts
  from the end, both indices are clamped to the string, and an empty range gives the
  empty string.
\<close>

definition js_slice :: "int \<Rightarrow> int \<Rightarrow> jsstring \<Rightarrow> jsstring" where
  "js_slice start fin s =
     (let len = int (length s);
          fromIdx = (if start < 0 then max (len + start) 0 else min start len);
          toIdx = (if fin < 0 then max (len + fin) 0 else min fin len)
      in if toIdx \<le> fromIdx then [] else take (nat (toIdx - fromIdx)) (drop (nat fromIdx) s))"

subsection \<open>Numbers: the doubles that generateRoomId computes with\<close>

text \<open>
  \<open>Math.random()\<close> returns a finite double in \<open>[0, 1)\<close>, and every intermediate result of
  \<open>100000 + Math.random() * 900000\<close> is a finite non-negative double below \<open>2^20\<close>. Such
  a number is \<open>mant * 2^expo\<close>; it is a binary64 value when \<open>mant < 2^53\<close> and
  \<open>-1074 \<le> expo \<le> 971\<close>. The arithmetic operators compute the exact result and round it
  to the nearest binary64 value, ties to the even significand. Negative numbers, NaN and
  the infinities are outside this model: no operand here produces them.
\<close>

datatype dbl = Dbl (mant: nat) (expo: int)

definition valof :: "dbl \<Rightarrow> rat" where
  "valof d =
     (if 0 \<le> expo d then of_nat (mant d * 2 ^ nat (expo d))
      else of_nat (mant d) / of_nat (2 ^ nat (- expo d)))"

definition is_double :: "dbl \<Rightarrow> bool" where
  "is_double d = (mant d < 2 ^ 53 \<and> -1074 \<le> expo d \<and> expo d \<le> 971)"

fun bitlen :: "nat \<Rightarrow> nat" where
  "bitlen n = (if n = 0 then 0 else Suc (bitlen (n div 2)))"

text \<open>\<open>rne M k\<close> is \<open>M / 2^k\<close> rounded to the nearest integer, a tie going to the even one.\<close>

definition rne :: "nat \<Rightarrow> nat \<Rightarrow> nat" where
  "rne M k =
     (let q = M div 2 ^ k; r = M mod 2 ^ k
      in if 2 * r < 2 ^ k then q
         else if 2 ^ k < 2 * r then q + 1
         else if even q then q else q + 1)"

text \<open>
  Rounding of an exact result to binary64: the significand keeps 53 bits, fewer when the
  exponent would fall below \<open>-1074\<close> (the subnormal range); a significand that rounds up
  to \<open>2^53\<close> is renormalised.
\<close>

definition fl :: "dbl \<Rightarrow> dbl" where
  "fl x =
     (let k = max (bitlen (mant x) - 53) (nat (- 1074 - expo x));
          m = rne (mant x) k;
          e = expo x + int k
      in if m = 2 ^ 53 then Dbl (2 ^ 52) (e + 1) else Dbl m e)"

definition dmul :: "dbl \<Rightarrow> dbl \<Rightarrow> dbl" where
  "dmul x y = fl (Dbl (mant x * mant y) (expo x + expo y))"

definition dadd :: "dbl \<Rightarrow> dbl \<Rightarrow> dbl" where
  "dadd x y =
     (let e = min (expo x) (expo y)
      in fl (Dbl (mant x * 2 ^ nat (expo x - e) + mant y * 2 ^ nat (expo y - e)) e))"

text \<open>\<open>Math.floor\<close> of a non-negative double; the result is an integer-valued number.\<close>

definition Math_floor :: "dbl \<Rightarrow> int" where
  "Math_floor d =
     (if 0 \<le> expo d then int (mant d * 2 ^ nat (expo d))
      else int (mant d div 2 ^ nat (- expo d)))"

definition digit :: "nat \<Rightarrow> code_unit" where
  "digit d = of_nat (48 + d)"

fun digits :: "nat \<Rightarrow> jsstring" where
  "digits n = (if n < 10 then [digit n] else digits (n div 10) @ [digit (n mod 10)])"

text \<open>
  \<open>Number.prototype.toString()\<close> of an integer-valued number of magnitude below \<open>10^21\<close>:
  its decimal digits, with a minus sign when negative.
\<close>

definition Number_toString :: "int \<Rightarrow> jsstring" where
  "Number_toString i = (if i < 0 then lit ''-'' @ digits (nat (- i)) else digits (nat i))"

text \<open>The code units \<open>0\<close> to \<open>9\<close>, and the number a string of them denotes.\<close>

definition is_decimal_digit :: "code_unit \<Rightarrow> bool" where
  "is_decimal_digit c = (48 \<le> unat c \<and> unat c \<le> 57)"

definition decimal_value :: "jsstring \<Rightarrow> nat" where
  "decimal_value s = foldl (\<lambda>a c. 10 * a + (unat c - 48)) 0 s"

text \<open>
  A number whose exponent is at least \<open>-1074\<close>, multiplied by \<open>2^1074\<close>, is a
  natural number; \<open>scaled\<close> is that multiple and \<open>one_scaled\<close> the multiple of 1, so
  that such numbers are compared without fractions.
\<close>

definition scaled :: "dbl \<Rightarrow> nat" where
  "scaled d = mant d * 2 ^ nat (expo d + 1074)"

definition one_scaled :: nat where
  "one_scaled = 2 ^ 1074"

declare bitlen.simps [simp del]
declare digits.simps [simp del]

subsection \<open>Component state and effects\<close>

record app_state =
  joined :: bool
  roomId :: jsstring
  userName :: jsstring
  language :: jsstring
  code :: jsstring
  copySuccess :: jsstring
  users :: "jsstring list"
  typing :: jsstring
  outPut :: jsval
  input :: jsstring
  version :: jsstring
  isRev :: bool
  isModalOpen :: bool
  modalMessage :: jsstring

text \<open>The \<open>useState\<close> initial values.\<close>

definition initial :: app_state where
  "initial =
     \<lparr> joined = False, roomId = lit '''', userName = lit '''', language = lit ''cpp'',
       code = lit ''// start coding here...'', copySuccess = lit '''', users = [],
       typing = lit '''', outPut = JStr (lit ''''), input = lit '''', version = lit ''*'',
       isRev = False, isModalOpen = False, modalMessage = lit '''' \<rparr>"

text \<open>The two callbacks the source passes to \<open>setTimeout\<close>.\<close>

datatype timer_cb = ClearTyping | ClearCopySuccess

text \<open>
  \<open>Emit name args\<close> is \<open>socket.emit(name, ...args)\<close>; \<open>SetTimeout cb ms\<close> is
  \<open>setTimeout(cb, ms)\<close>.
\<close>

datatype effect =
    Emit jsstring "jsval list"
  | SetTimeout timer_cb nat
  | ConsoleLog "jsval list"
  | ClipboardWrite jsstring

subsection \<open>Socket listeners\<close>

definition on_userJoined :: "jsstring list \<Rightarrow> app_state \<Rightarrow> app_state \<times> effect list" where
  "on_userJoined us s = (s\<lparr>users := us\<rparr>, [])"

definition on_codeUpdate :: "jsstring \<Rightarrow> app_state \<Rightarrow> app_state \<times> effect list" where
  "on_codeUpdate newCode s = (s\<lparr>code := newCode\<rparr>, [])"

definition on_userTyping :: "jsstring \<Rightarrow> app_state \<Rightarrow> app_state \<times> effect list" where
  "on_userTyping user s =
     (s\<lparr>typing := js_slice 0 10 user @ lit '' is typing...''\<rparr>,
      [SetTimeout ClearTyping 2000])"

definition on_languageUpdate :: "jsstring \<Rightarrow> app_state \<Rightarrow> app_state \<times> effect list" where
  "on_languageUpdate newLanguage s =
     (s\<lparr>language := newLanguage\<rparr>, [ConsoleLog [JStr newLanguage]])"

definition on_codeResponse :: "jsval \<Rightarrow> app_state \<Rightarrow> js_error + app_state \<times> effect list" where
  "on_codeResponse response s =
     (case getProp response (lit ''run'') of
        Inl err \<Rightarrow> Inl err
      | Inr run \<Rightarrow>
          (case getProp run (lit ''output'') of
             Inl err \<Rightarrow> Inl err
           | Inr out \<Rightarrow> Inr (s\<lparr>outPut := out\<rparr>, [])))"

definition on_AIReview :: "jsstring \<Rightarrow> app_state \<Rightarrow> app_state \<times> effect list" where
  "on_AIReview message s =
     (s\<lparr>modalMessage := message, isModalOpen := True, isRev := False\<rparr>,
      [ConsoleLog [JStr (lit ''AI Review:''), JStr message]])"

definition run_timer :: "timer_cb \<Rightarrow> app_state \<Rightarrow> app_state \<times> effect list" where
  "run_timer cb s =
     (case cb of
        ClearTyping \<Rightarrow> (s\<lparr>typing := lit ''''\<rparr>, [])
      | ClearCopySuccess \<Rightarrow> (s\<lparr>copySuccess := lit ''''\<rparr>, []))"

subsection \<open>Window and user-interface handlers\<close>

definition handleBeforeUnload :: "app_state \<Rightarrow> app_state \<times> effect list" where
  "handleBeforeUnload s = (s, [Emit (lit ''leaveRoom'') []])"

text \<open>A string is truthy exactly when it is not empty.\<close>

definition JoinRoom :: "app_state \<Rightarrow> app_state \<times> effect list" where
  "JoinRoom s =
     (if roomId s \<noteq> [] \<and> userName s \<noteq> [] then
        (s\<lparr>joined := True\<rparr>,
         [Emit (lit ''join'')
            [JObj [(lit ''roomId'', JStr (roomId s)), (lit ''userName'', JStr (userName s))]]])
      else (s, []))"

definition leaveRoom :: "app_state \<Rightarrow> app_state \<times> effect list" where
  "leaveRoom s =
     (s\<lparr>joined := False, roomId := lit '''', userName := lit '''',
        code := lit ''//start coding here...'', language := lit ''cpp''\<rparr>,
      [Emit (lit ''leaveRoom'') []])"

text \<open>The argument is the value \<open>Math.random()\<close> returned.\<close>

definition generateRoomId :: "dbl \<Rightarrow> jsstring" where
  "generateRoomId r =
     Number_toString (Math_floor (dadd (Dbl 100000 0) (dmul r (Dbl 900000 0))))"

definition handleCreateRoom :: "dbl \<Rightarrow> app_state \<Rightarrow> app_state \<times> effect list" where
  "handleCreateRoom r s = (let newRoomId = generateRoomId r in (s\<lparr>roomId := newRoomId\<rparr>, []))"

definition copyRoomId :: "app_state \<Rightarrow> app_state \<times> effect list" where
  "copyRoomId s =
     (s\<lparr>copySuccess := lit ''Copied!''\<rparr>,
      [ClipboardWrite (roomId s), SetTimeout ClearCopySuccess 2000])"

definition handleCodeChange :: "jsstring \<Rightarrow> app_state \<Rightarrow> app_state \<times> effect list" where
  "handleCodeChange newCode s =
     (s\<lparr>code := newCode\<rparr>,
      [Emit (lit ''codeChange'')
         [JObj [(lit ''roomId'', JStr (roomId s)), (lit ''code'', JStr newCode)]],
       Emit (lit ''typing'') [JStr (roomId s), JStr (userName s)]])"

definition handleLanguageChange :: "jsstring \<Rightarrow> app_state \<Rightarrow> app_state \<times> effect list" where
  "handleLanguageChange newLanguage s =
     (s\<lparr>language := newLanguage\<rparr>,
      [Emit (lit ''languageChange'')
         [JObj [(lit ''roomId'', JStr (roomId s)), (lit ''language'', JStr newLanguage)]]])"

definition runCode :: "app_state \<Rightarrow> app_state \<times> effect list" where
  "runCode s =
     (s,
      [Emit (lit ''compileCode'')
         [JObj [(lit ''code'', JStr (code s)), (lit ''roomId'', JStr (roomId s)),
                (lit ''language'', JStr (language s)), (lit ''version'', JStr (version s)),
                (lit ''stdin'', JStr (input s))]]])"

definition AIreview :: "app_state \<Rightarrow> app_state \<times> effect list" where
  "AIreview s =
     (s\<lparr>isRev := True\<rparr>,
      [Emit (lit ''getAIReview'')
         [JObj [(lit ''roomId'', JStr (roomId s)), (lit ''code'', JStr (code s))]]])"

definition closeModal :: "app_state \<Rightarrow> app_state \<times> effect list" where
  "closeModal s = (s\<lparr>isModalOpen := False, modalMessage := lit ''''\<rparr>, [])"

subsection \<open>Everything that can run a handler\<close>

datatype action =
    UserJoined "jsstring list"
  | CodeUpdate jsstring
  | UserTyping jsstring
  | LanguageUpdate jsstring
  | CodeResponse jsval
  | AIReview jsstring
  | TimerFired timer_cb
  | BeforeUnload
  | RoomIdInput jsstring
  | UserNameInput jsstring
  | CreateRoomClick dbl
  | JoinRoomClick
  | CopyIdClick
  | EditorChange jsstring
  | LanguageSelect jsstring
  | LeaveRoomClick
  | AIReviewClick
  | StdinInput jsstring
  | ExecuteClick
  | CloseModalClick

fun step :: "action \<Rightarrow> app_state \<Rightarrow> js_error + app_state \<times> effect list" where
  "step (UserJoined us) s = Inr (on_userJoined us s)"
| "step (CodeUpdate c) s = Inr (on_codeUpdate c s)"
| "step (UserTyping u) s = Inr (on_userTyping u s)"
| "step (LanguageUpdate l) s = Inr (on_languageUpdate l s)"
| "step (CodeResponse p) s = on_codeResponse p s"
| "step (AIReview m) s = Inr (on_AIReview m s)"
| "step (TimerFired cb) s = Inr (run_timer cb s)"
| "step BeforeUnload s = Inr (handleBeforeUnload s)"
| "step (RoomIdInput v) s = Inr (s\<lparr>roomId := v\<rparr>, [])"
| "step (UserNameInput v) s = Inr (s\<lparr>userName := v\<rparr>, [])"
| "step (CreateRoomClick r) s = Inr (handleCreateRoom r s)"
| "step JoinRoomClick s = Inr (JoinRoom s)"
| "step CopyIdClick s = Inr (copyRoomId s)"
| "step (EditorChange c) s = Inr (handleCodeChange c s)"
| "step (LanguageSelect l) s = Inr (handleLanguageChange l s)"
| "step LeaveRoomClick s = Inr (leaveRoom s)"
| "step AIReviewClick s = Inr (AIreview s)"
| "step (StdinInput v) s = Inr (s\<lparr>input := v\<rparr>, [])"
| "step ExecuteClick s = Inr (runCode s)"
| "step CloseModalClick s = Inr (closeModal s)"

text \<open>
  The states the component can be in: the initial one, and any state a handler leaves
  behind. A handler that throws leaves the state as it was. Every handler may run in
  every state, which allows more than the two screens offer (the join form before joining,
  the editor after).
\<close>

inductive reachable :: "app_state \<Rightarrow> bool" where
  reachable_initial: "reachable initial"
| reachable_step: "reachable s \<Longrightarrow> step a s = Inr (s', fx) \<Longrightarrow> reachable s'"

text \<open>The socket emissions among a list of effects, as (event name, arguments).\<close>

fun emits :: "effect list \<Rightarrow> (jsstring \<times> jsval list) list" where
  "emits [] = []"
| "emits (Emit n args # fx) = (n, args) # emits fx"
| "emits (e # fx) = emits fx"

subsection \<open>The server's compileCode handler\<close>



subsection \<open>Payload shapes and the spec's event table\<close>



text \<open>
  The client-to-server rows of the spec's event table, written from the spec: the
  arguments each event carries when the client's state is \<open>s\<close>. \<open>typing\<close> carries two
  positional arguments, \<open>leaveRoom\<close> none, and every other event one object with exactly
  the listed fields.
\<close>

definition event_table :: "app_state \<Rightarrow> (jsstring \<times> jsval list) list" where
  "event_table s =
     [(lit ''join'',
         [JObj [(lit ''roomId'', JStr (roomId s)), (lit ''userName'', JStr (userName s))]]),
      (lit ''leaveRoom'', []),
      (lit ''codeChange'',
         [JObj [(lit ''roomId'', JStr (roomId s)), (lit ''code'', JStr (code s))]]),
      (lit ''languageChange'',
         [JObj [(lit ''roomId'', JStr (roomId s)), (lit ''language'', JStr (language s))]]),
      (lit ''typing'', [JStr (roomId s), JStr (userName s)]),
      (lit ''compileCode'',
         [JObj [(lit ''code'', JStr (code s)), (lit ''roomId'', JStr (roomId s)),
                (lit ''language'', JStr (language s)), (lit ''version'', JStr (version s)),
                (lit ''stdin'', JStr (input s))]]),
      (lit ''getAIReview'',
         [JObj [(lit ''roomId'', JStr (roomId s)), (lit ''code'', JStr (code s))]])]"

section \<open>Properties\<close>

subsection \<open>String literals\<close>

lemma lit_Nil [simp]: "lit [] = []"
  by (simp add: lit_def)

lemma lit_eq_Nil_iff [simp]: "lit cs = [] \<longleftrightarrow> cs = []"
  by (simp add: lit_def)

lemma of_char_less_65536: "(of_char c :: nat) < 65536"
proof -
  have "(of_char c :: nat) < 256" by (cases c) simp
  then show ?thesis by linarith
qed

lemma unat_code_unit_of_char: "unat (of_char c :: code_unit) = of_char c"
proof -
  have "unat (of_nat (of_char c) :: code_unit) = of_char c mod 65536"
    by (simp add: unat_of_nat)
  also have "\<dots> = of_char c"
    using of_char_less_65536 [of c] by (rule mod_less)
  finally show ?thesis by (simp only: of_nat_of_char)
qed

lemma code_unit_of_char_eq_iff: "(of_char c :: code_unit) = of_char d \<longleftrightarrow> c = d"
proof
  assume "(of_char c :: code_unit) = of_char d"
  then have "unat (of_char c :: code_unit) = unat (of_char d :: code_unit)" by simp
  then have "(of_char c :: nat) = of_char d" by (simp only: unat_code_unit_of_char)
  then show "c = d" using inj_of_char [where ?'a = nat] by (simp add: inj_def)
qed simp

text \<open>Distinct literals of the source are distinct strings.\<close>

lemma lit_eq_iff [simp]: "lit a = lit b \<longleftrightarrow> a = b"
proof (induction a arbitrary: b)
  case Nil
  then show ?case by (auto simp: lit_def)
next
  case (Cons x xs)
  then show ?case by (cases b) (auto simp: lit_def code_unit_of_char_eq_iff)
qed


subsection \<open>Joining\<close>

text \<open>
  C1. If the room id or the user name is empty, the join handler emits nothing, raises no
  error and returns the state unchanged (the joined flag included); when both are
  non-empty it emits exactly one \<open>join\<close> event whose single argument is the object
  \<open>{roomId, userName}\<close> and sets the joined flag, changing nothing else.
\<close>

theorem JoinRoom_guard:
  "((roomId s = [] \<or> userName s = []) \<longrightarrow> step JoinRoomClick s = Inr (s, [])) \<and>
   ((roomId s \<noteq> [] \<and> userName s \<noteq> []) \<longrightarrow>
      step JoinRoomClick s =
        Inr (s\<lparr>joined := True\<rparr>,
             [Emit (lit ''join'')
                [JObj [(lit ''roomId'', JStr (roomId s)),
                       (lit ''userName'', JStr (userName s))]]]))"
  by (simp add: JoinRoom_def)

theorem JoinRoom_guard_witness:
  "step JoinRoomClick initial = Inr (initial, []) \<and>
   step JoinRoomClick (initial\<lparr>roomId := lit ''482913'', userName := lit ''ann''\<rparr>) =
     Inr (initial\<lparr>roomId := lit ''482913'', userName := lit ''ann'', joined := True\<rparr>,
          [Emit (lit ''join'')
             [JObj [(lit ''roomId'', JStr (lit ''482913'')),
                    (lit ''userName'', JStr (lit ''ann''))]]])"
  using JoinRoom_guard [of initial]
    JoinRoom_guard [of "initial\<lparr>roomId := lit ''482913'', userName := lit ''ann''\<rparr>"]
  by (simp add: initial_def)

subsection \<open>Execution results\<close>







subsection \<open>Emitted events\<close>

text \<open>
  C3. Every event a handler emits carries exactly the arguments of its row in the
  spec's event table, each field read from the client's state as the handler leaves
  it: \<open>join\<close> \<open>{roomId, userName}\<close>, \<open>leaveRoom\<close> nothing, \<open>codeChange\<close>
  \<open>{roomId, code}\<close>, \<open>languageChange\<close> \<open>{roomId, language}\<close>, \<open>typing\<close> the two
  arguments \<open>roomId, userName\<close>, \<open>compileCode\<close> \<open>{code, roomId, language, version,
  stdin}\<close> and \<open>getAIReview\<close> \<open>{roomId, code}\<close>. (The code and language a change handler
  sends are the new values it has just stored; \<open>leaveRoom\<close> is sent with no argument
  whatever the state.)
\<close>

theorem emitted_payloads_match_table:
  "step a s = Inr (s', fx) \<Longrightarrow> (n, args) \<in> set (emits fx) \<Longrightarrow>
     map_of (event_table s') n = Some args"
  by (cases a)
    (auto simp: event_table_def on_userJoined_def on_codeUpdate_def on_userTyping_def
      on_languageUpdate_def on_codeResponse_def on_AIReview_def run_timer_def
      handleBeforeUnload_def JoinRoom_def leaveRoom_def handleCreateRoom_def
      copyRoomId_def handleCodeChange_def handleLanguageChange_def runCode_def
      AIreview_def closeModal_def
      split: sum.splits if_splits timer_cb.splits)

theorem emitted_payloads_match_table_witness:
  "step (EditorChange (lit ''x = 1''))
        (initial\<lparr>roomId := lit ''482913'', userName := lit ''ann''\<rparr>)
     = Inr (initial\<lparr>roomId := lit ''482913'', userName := lit ''ann'', code := lit ''x = 1''\<rparr>,
            [Emit (lit ''codeChange'')
               [JObj [(lit ''roomId'', JStr (lit ''482913'')), (lit ''code'', JStr (lit ''x = 1''))]],
             Emit (lit ''typing'') [JStr (lit ''482913''), JStr (lit ''ann'')]]) \<and>
   (lit ''typing'', [JStr (lit ''482913''), JStr (lit ''ann'')])
     \<in> set (emits
         [Emit (lit ''codeChange'')
            [JObj [(lit ''roomId'', JStr (lit ''482913'')), (lit ''code'', JStr (lit ''x = 1''))]],
          Emit (lit ''typing'') [JStr (lit ''482913''), JStr (lit ''ann'')]]) \<and>
   map_of (event_table (initial\<lparr>roomId := lit ''482913'', userName := lit ''ann'',
                                code := lit ''x = 1''\<rparr>)) (lit ''typing'')
     = Some [JStr (lit ''482913''), JStr (lit ''ann'')] \<and>
   map_of (event_table (initial\<lparr>roomId := lit ''482913'', userName := lit ''ann'',
                                code := lit ''x = 1''\<rparr>)) (lit ''codeChange'')
     = Some [JObj [(lit ''roomId'', JStr (lit ''482913'')), (lit ''code'', JStr (lit ''x = 1''))]]"
  using emitted_payloads_match_table
      [of "EditorChange (lit ''x = 1'')"
          "initial\<lparr>roomId := lit ''482913'', userName := lit ''ann''\<rparr>"
          "initial\<lparr>roomId := lit ''482913'', userName := lit ''ann'', code := lit ''x = 1''\<rparr>"
          "[Emit (lit ''codeChange'')
              [JObj [(lit ''roomId'', JStr (lit ''482913'')), (lit ''code'', JStr (lit ''x = 1''))]],
            Emit (lit ''typing'') [JStr (lit ''482913''), JStr (lit ''ann'')]]"
          "lit ''codeChange''"
          "[JObj [(lit ''roomId'', JStr (lit ''482913'')), (lit ''code'', JStr (lit ''x = 1''))]]"]
    emitted_payloads_match_table
      [of "EditorChange (lit ''x = 1'')"
          "initial\<lparr>roomId := lit ''482913'', userName := lit ''ann''\<rparr>"
          "initial\<lparr>roomId := lit ''482913'', userName := lit ''ann'', code := lit ''x = 1''\<rparr>"
          "[Emit (lit ''codeChange'')
              [JObj [(lit ''roomId'', JStr (lit ''482913'')), (lit ''code'', JStr (lit ''x = 1''))]],
            Emit (lit ''typing'') [JStr (lit ''482913''), JStr (lit ''ann'')]]"
          "lit ''typing''"
          "[JStr (lit ''482913''), JStr (lit ''ann'')]"]
  by (simp add: handleCodeChange_def initial_def)

text \<open>
  The emission sites, handler by handler. No listener, timer callback, input handler,
  \<open>handleCreateRoom\<close>, \<open>copyRoomId\<close> or \<open>closeModal\<close> emits anything.
\<close>

lemma emissions_by_handler:
  "emits (snd (JoinRoom s)) =
     (if roomId s \<noteq> [] \<and> userName s \<noteq> [] then
        [(lit ''join'',
          [JObj [(lit ''roomId'', JStr (roomId s)), (lit ''userName'', JStr (userName s))]])]
      else [])"
  "emits (snd (leaveRoom s)) = [(lit ''leaveRoom'', [])]"
  "emits (snd (handleBeforeUnload s)) = [(lit ''leaveRoom'', [])]"
  "emits (snd (handleCodeChange newCode s)) =
     [(lit ''codeChange'',
       [JObj [(lit ''roomId'', JStr (roomId s)), (lit ''code'', JStr newCode)]]),
      (lit ''typing'', [JStr (roomId s), JStr (userName s)])]"
  "emits (snd (handleLanguageChange newLanguage s)) =
     [(lit ''languageChange'',
       [JObj [(lit ''roomId'', JStr (roomId s)), (lit ''language'', JStr newLanguage)]])]"
  "emits (snd (runCode s)) =
     [(lit ''compileCode'',
       [JObj [(lit ''code'', JStr (code s)), (lit ''roomId'', JStr (roomId s)),
              (lit ''language'', JStr (language s)), (lit ''version'', JStr (version s)),
              (lit ''stdin'', JStr (input s))]])]"
  "emits (snd (AIreview s)) =
     [(lit ''getAIReview'',
       [JObj [(lit ''roomId'', JStr (roomId s)), (lit ''code'', JStr (code s))]])]"
  by (simp_all add: JoinRoom_def leaveRoom_def handleBeforeUnload_def handleCodeChange_def
      handleLanguageChange_def runCode_def AIreview_def)

subsection \<open>Room and document synchronisation\<close>

text \<open>
  C4. A \<open>userJoined\<close> event replaces the local user list by the received list and a
  \<open>codeUpdate\<close> event replaces the local code by the received string: whatever the
  state held before, the field afterwards equals the received value, every other field
  is as it was, and nothing is emitted.
\<close>

theorem sync_events_replace:
  "step (UserJoined us) s = Inr (s\<lparr>users := us\<rparr>, []) \<and>
   users (s\<lparr>users := us\<rparr>) = us \<and>
   step (CodeUpdate newCode) s = Inr (s\<lparr>code := newCode\<rparr>, []) \<and>
   code (s\<lparr>code := newCode\<rparr>) = newCode"
  by (simp add: on_userJoined_def on_codeUpdate_def)

subsection \<open>The typing indicator\<close>

lemma js_slice_prefix: "0 \<le> n \<Longrightarrow> js_slice 0 n u = take (nat n) u"
  by (cases "length u \<le> nat n") (auto simp: js_slice_def Let_def min_def)

text \<open>
  C5. On every \<open>userTyping\<close> event the listener stores a non-empty typing indicator and
  requests one timer of 2000 milliseconds whose callback resets the indicator to the
  empty string; the event changes no other state variable and emits nothing, and the
  callback changes nothing but the indicator.
\<close>

theorem userTyping_expires:
  "step (UserTyping u) s =
     Inr (s\<lparr>typing := js_slice 0 10 u @ lit '' is typing...''\<rparr>,
          [SetTimeout ClearTyping 2000]) \<and>
   js_slice 0 10 u @ lit '' is typing...'' \<noteq> [] \<and>
   step (TimerFired ClearTyping) s' = Inr (s'\<lparr>typing := []\<rparr>, [])"
  by (simp add: on_userTyping_def run_timer_def)

text \<open>
  C9. The indicator a \<open>userTyping\<close> event with user name \<open>u\<close> displays is the first ten
  code units of \<open>u\<close> (all of \<open>u\<close> when it has ten or fewer) followed by
  \<open>" is typing..."\<close>.
\<close>

theorem userTyping_truncates_name:
  "step (UserTyping u) s = Inr (on_userTyping u s) \<and>
   typing (fst (on_userTyping u s)) = take 10 u @ lit '' is typing...'' \<and>
   (length u \<le> 10 \<longrightarrow> typing (fst (on_userTyping u s)) = u @ lit '' is typing...'')"
  by (simp add: on_userTyping_def js_slice_prefix)

theorem userTyping_truncates_name_witness:
  "typing (fst (on_userTyping (lit ''bartholomew-the-second'') initial))
     = lit ''bartholome is typing...'' \<and>
   length (lit ''ann'') \<le> 10 \<and>
   typing (fst (on_userTyping (lit ''ann'') initial)) = lit ''ann is typing...''"
  using userTyping_truncates_name [of "lit ''bartholomew-the-second''" initial]
    userTyping_truncates_name [of "lit ''ann''" initial]
  by (simp add: lit_def)

subsection \<open>The review modal\<close>

text \<open>
  C6. On every \<open>AIReview\<close> event the listener stores the received text unchanged as the
  modal's message, opens the modal and clears the in-review flag; in particular the
  server's fallback text \<open>"Unable to review currently please try later"\<close> is shown as
  it is.
\<close>

theorem AIReview_shows_message:
  "step (AIReview message) s =
     Inr (s\<lparr>modalMessage := message, isModalOpen := True, isRev := False\<rparr>,
          [ConsoleLog [JStr (lit ''AI Review:''), JStr message]]) \<and>
   (\<exists>s' fx. step (AIReview (lit ''Unable to review currently please try later'')) s
              = Inr (s', fx) \<and>
      modalMessage s' = lit ''Unable to review currently please try later'' \<and>
      isModalOpen s' \<and> \<not> isRev s')"
  by (simp add: on_AIReview_def)

subsection \<open>Leaving\<close>

text \<open>
  C7. The handler run when the browser window unloads emits exactly what the Leave Room
  button's handler emits: one \<open>leaveRoom\<close> event with no argument.
\<close>

theorem unload_emits_as_leave:
  "emits (snd (handleBeforeUnload s)) = emits (snd (leaveRoom s)) \<and>
   emits (snd (handleBeforeUnload s)) = [(lit ''leaveRoom'', [])] \<and>
   step BeforeUnload s = Inr (handleBeforeUnload s) \<and>
   step LeaveRoomClick s = Inr (leaveRoom s)"
  by (simp add: handleBeforeUnload_def leaveRoom_def)

subsection \<open>The version field\<close>

lemma step_keeps_version: "step a s = Inr (s', fx) \<Longrightarrow> version s' = version s"
  by (cases a)
    (auto simp: on_userJoined_def on_codeUpdate_def on_userTyping_def
      on_languageUpdate_def on_codeResponse_def on_AIReview_def run_timer_def
      handleBeforeUnload_def JoinRoom_def leaveRoom_def handleCreateRoom_def
      copyRoomId_def handleCodeChange_def handleLanguageChange_def runCode_def
      AIreview_def closeModal_def
      split: sum.splits if_splits timer_cb.splits)

lemma reachable_version: "reachable s \<Longrightarrow> version s = lit ''*''"
proof (induction rule: reachable.induct)
  case reachable_initial
  show ?case by (simp add: initial_def)
next
  case (reachable_step s a s' fx)
  then show ?case using step_keeps_version [of a s s' fx] by simp
qed

lemma compileCode_only_from_runCode:
  assumes "step a s = Inr (s', fx)" and "(lit ''compileCode'', args) \<in> set (emits fx)"
  shows "args = [JObj [(lit ''code'', JStr (code s)), (lit ''roomId'', JStr (roomId s)),
                       (lit ''language'', JStr (language s)),
                       (lit ''version'', JStr (version s)), (lit ''stdin'', JStr (input s))]]"
  using assms
  by (cases a)
    (auto simp: on_userJoined_def on_codeUpdate_def on_userTyping_def
      on_languageUpdate_def on_codeResponse_def on_AIReview_def run_timer_def
      handleBeforeUnload_def JoinRoom_def leaveRoom_def handleCreateRoom_def
      copyRoomId_def handleCodeChange_def handleLanguageChange_def runCode_def
      AIreview_def closeModal_def
      split: sum.splits if_splits timer_cb.splits)

text \<open>
  C8. In every reachable state of the client the version is the string \<open>"*"\<close>, and
  every \<open>compileCode\<close> event emitted from a reachable state carries \<open>version: "*"\<close>.
\<close>

theorem version_always_star:
  assumes "reachable s"
  shows "version s = lit ''*'' \<and>
    (\<forall>a s' fx args. step a s = Inr (s', fx) \<longrightarrow>
        (lit ''compileCode'', args) \<in> set (emits fx) \<longrightarrow>
        (\<exists>kvs. args = [JObj kvs] \<and> map_of kvs (lit ''version'') = Some (JStr (lit ''*''))))"
proof
  show v: "version s = lit ''*''" using assms by (rule reachable_version)
  show "\<forall>a s' fx args. step a s = Inr (s', fx) \<longrightarrow>
        (lit ''compileCode'', args) \<in> set (emits fx) \<longrightarrow>
        (\<exists>kvs. args = [JObj kvs] \<and> map_of kvs (lit ''version'') = Some (JStr (lit ''*'')))"
  proof (intro allI impI)
    fix a s' fx args
    assume "step a s = Inr (s', fx)" and "(lit ''compileCode'', args) \<in> set (emits fx)"
    then have "args = [JObj [(lit ''code'', JStr (code s)), (lit ''roomId'', JStr (roomId s)),
                       (lit ''language'', JStr (language s)),
                       (lit ''version'', JStr (version s)), (lit ''stdin'', JStr (input s))]]"
      by (rule compileCode_only_from_runCode)
    with v show "\<exists>kvs. args = [JObj kvs] \<and>
        map_of kvs (lit ''version'') = Some (JStr (lit ''*''))"
      by simp
  qed
qed

theorem version_always_star_witness:
  "reachable (initial\<lparr>roomId := lit ''482913''\<rparr>) \<and>
   version (initial\<lparr>roomId := lit ''482913''\<rparr>) = lit ''*'' \<and>
   step ExecuteClick (initial\<lparr>roomId := lit ''482913''\<rparr>) =
     Inr (initial\<lparr>roomId := lit ''482913''\<rparr>,
          [Emit (lit ''compileCode'')
             [JObj [(lit ''code'', JStr (lit ''// start coding here...'')),
                    (lit ''roomId'', JStr (lit ''482913'')),
                    (lit ''language'', JStr (lit ''cpp'')),
                    (lit ''version'', JStr (lit ''*'')),
                    (lit ''stdin'', JStr [])]]])"
proof -
  have r: "reachable (initial\<lparr>roomId := lit ''482913''\<rparr>)"
    using reachable_step [OF reachable_initial, of "RoomIdInput (lit ''482913'')"]
    by simp
  show ?thesis
    using r version_always_star [OF r] by (simp add: runCode_def initial_def)
qed

subsection \<open>Rounding to the nearest double\<close>

lemma bitlen_le_iff: "bitlen n \<le> b \<longleftrightarrow> n < 2 ^ b"
proof (induction n arbitrary: b rule: bitlen.induct)
  case (1 n)
  show ?case
  proof (cases "n = 0")
    case True
    then show ?thesis by (simp add: bitlen.simps)
  next
    case False
    show ?thesis
    proof (cases b)
      case 0
      with False show ?thesis by (simp add: bitlen.simps [of n])
    next
      case (Suc b')
      have "bitlen n \<le> b \<longleftrightarrow> bitlen (n div 2) \<le> b'"
        using False Suc by (simp add: bitlen.simps [of n])
      also have "\<dots> \<longleftrightarrow> n div 2 < 2 ^ b'"
        using "1.IH" [OF False] .
      also have "\<dots> \<longleftrightarrow> n < 2 ^ b"
        using Suc by (simp add: div_less_iff_less_mult ac_simps)
      finally show ?thesis .
    qed
  qed
qed

lemma rne_0: "rne M 0 = M"
  by (simp add: rne_def)

lemma rne_lower: "c * 2 ^ k \<le> M \<Longrightarrow> c \<le> rne M k"
proof -
  assume "c * 2 ^ k \<le> M"
  then have "c \<le> M div 2 ^ k"
    by (simp add: less_eq_div_iff_mult_less_eq)
  moreover have "M div 2 ^ k \<le> rne M k"
    by (simp add: rne_def Let_def)
  ultimately show ?thesis by simp
qed

lemma rne_upper: "2 * (rne M k * 2 ^ k) \<le> 2 * M + 2 ^ k"
proof -
  define q where "q = M div 2 ^ k"
  define r where "r = M mod 2 ^ k"
  have M: "M = q * 2 ^ k + r" by (simp only: q_def r_def div_mult_mod_eq)
  have r: "r < 2 ^ k" by (simp add: r_def)
  show ?thesis
  proof (cases "2 * r < 2 ^ k")
    case True
    then have "rne M k = q" by (simp add: rne_def Let_def q_def r_def)
    then show ?thesis using M by simp
  next
    case False
    then have "rne M k \<le> q + 1" by (simp add: rne_def Let_def q_def r_def)
    then have "rne M k * 2 ^ k \<le> (q + 1) * 2 ^ k" by (rule mult_le_mono1)
    then have "2 * (rne M k * 2 ^ k) \<le> 2 * (q * 2 ^ k) + 2 * 2 ^ k"
      by (simp add: algebra_simps)
    also have "\<dots> \<le> 2 * (q * 2 ^ k) + 2 * r + 2 ^ k" using False by simp
    also have "\<dots> = 2 * M + 2 ^ k" using M by simp
    finally show ?thesis .
  qed
qed

lemma rne_grid_up: "M \<le> c * 2 ^ k \<Longrightarrow> rne M k \<le> c"
proof -
  assume h: "M \<le> c * 2 ^ k"
  have "2 * (rne M k * 2 ^ k) \<le> 2 * M + 2 ^ k" by (rule rne_upper)
  also have "\<dots> \<le> 2 * (c * 2 ^ k) + 2 ^ k" using h by simp
  also have "\<dots> < 2 * ((c + 1) * 2 ^ k)" by (simp add: algebra_simps)
  finally have "2 * (rne M k * 2 ^ k) < 2 * ((c + 1) * 2 ^ k)" .
  then have "rne M k * 2 ^ k < (c + 1) * 2 ^ k" by linarith
  then have "rne M k < c + 1" unfolding mult_less_cancel2 by (rule conjunct2)
  then show ?thesis by simp
qed

subsection \<open>Scaled values of rounded results\<close>

lemma pow2_split:
  assumes "- 1074 \<le> e" and "e \<le> 0"
  shows "(2::nat) ^ nat (- e) * 2 ^ nat (e + 1074) = one_scaled"
proof -
  have "nat (- e) + nat (e + 1074) = 1074" using assms by simp
  then show ?thesis by (simp only: power_add [symmetric] one_scaled_def)
qed

lemma pow2_nonneg:
  assumes "0 \<le> e"
  shows "(2::nat) ^ nat (e + 1074) = 2 ^ nat e * one_scaled"
proof -
  have "nat (e + 1074) = nat e + 1074" using assms by simp
  then show ?thesis by (simp only: power_add one_scaled_def)
qed

lemma one_scaled_pos: "0 < one_scaled"
  by (simp only: one_scaled_def zero_less_power zero_less_numeral)

lemma pow2_shift:
  assumes "- 1074 \<le> e"
  shows "(2::nat) ^ nat (e + int k + 1074) = 2 ^ k * 2 ^ nat (e + 1074)"
proof -
  have "nat (e + int k + 1074) = k + nat (e + 1074)" using assms by simp
  then show ?thesis by (simp only: power_add)
qed

lemma fl_cases:
  assumes "- 1074 \<le> expo x"
  defines "k \<equiv> bitlen (mant x) - 53"
  shows "fl x = (if rne (mant x) k = 2 ^ 53 then Dbl (2 ^ 52) (expo x + int k + 1)
                 else Dbl (rne (mant x) k) (expo x + int k))"
proof -
  have "nat (- 1074 - expo x) = 0" using assms(1) by simp
  then show ?thesis by (simp add: fl_def Let_def k_def)
qed

lemma fl_scaled:
  assumes "- 1074 \<le> expo x"
  shows "scaled (fl x) =
         rne (mant x) (bitlen (mant x) - 53) * 2 ^ (bitlen (mant x) - 53) * 2 ^ nat (expo x + 1074)"
proof -
  define k where "k = bitlen (mant x) - 53"
  have s1: "(2::nat) ^ nat (expo x + int k + 1074) = 2 ^ k * 2 ^ nat (expo x + 1074)"
    using assms by (rule pow2_shift)
  have "nat (expo x + int k + 1 + 1074) = Suc (nat (expo x + int k + 1074))"
    using assms by simp
  then have s2: "(2::nat) ^ nat (expo x + int k + 1 + 1074) = 2 * (2 ^ k * 2 ^ nat (expo x + 1074))"
    using s1 by simp
  show ?thesis
  proof (cases "rne (mant x) k = 2 ^ 53")
    case True
    then have "fl x = Dbl (2 ^ 52) (expo x + int k + 1)"
      using fl_cases [OF assms] by (simp add: k_def)
    then have "scaled (fl x) = 2 ^ 52 * (2 * (2 ^ k * 2 ^ nat (expo x + 1074)))"
      using s2 by (simp add: scaled_def)
    also have "\<dots> = 2 ^ 53 * 2 ^ k * 2 ^ nat (expo x + 1074)" by simp
    finally show ?thesis using True by (simp add: k_def)
  next
    case False
    then have "fl x = Dbl (rne (mant x) k) (expo x + int k)"
      using fl_cases [OF assms] by (simp add: k_def)
    then show ?thesis using s1 by (simp add: scaled_def k_def)
  qed
qed

lemma fl_expo:
  assumes "- 1074 \<le> expo x"
  shows "- 1074 \<le> expo (fl x)"
  using assms by (simp add: fl_cases [OF assms])

lemma rne_bitlen_le: "rne M (bitlen M - 53) \<le> 2 ^ 53"
proof -
  have "bitlen M \<le> 53 + (bitlen M - 53)" by simp
  then have "M < 2 ^ (53 + (bitlen M - 53))" by (simp only: bitlen_le_iff)
  then have "M \<le> 2 ^ 53 * 2 ^ (bitlen M - 53)" by (simp only: power_add)
  then show ?thesis by (rule rne_grid_up)
qed

lemma fl_mant:
  assumes "- 1074 \<le> expo x"
  shows "mant (fl x) < 2 ^ 53"
  using rne_bitlen_le [of "mant x"] by (simp add: fl_cases [OF assms])

lemma floor_scaled:
  assumes "- 1074 \<le> expo d"
  shows "Math_floor d = int (scaled d div one_scaled)"
proof (cases "0 \<le> expo d")
  case True
  then have "scaled d = mant d * 2 ^ nat (expo d) * one_scaled"
    by (simp only: scaled_def pow2_nonneg mult.assoc)
  then have "scaled d div one_scaled = mant d * 2 ^ nat (expo d)"
    using one_scaled_pos by simp
  then show ?thesis using True by (simp add: Math_floor_def)
next
  case False
  then have e: "expo d \<le> 0" by simp
  have "scaled d div one_scaled
        = (mant d * 2 ^ nat (expo d + 1074)) div (2 ^ nat (- expo d) * 2 ^ nat (expo d + 1074))"
    by (simp only: scaled_def pow2_split [OF assms e])
  also have "\<dots> = mant d div 2 ^ nat (- expo d)" by simp
  finally show ?thesis using False by (simp add: Math_floor_def)
qed

lemma valof_scaled:
  assumes "- 1074 \<le> expo d"
  shows "valof d < 1 \<longleftrightarrow> scaled d < one_scaled"
proof (cases "0 \<le> expo d")
  case True
  then have s: "scaled d = (mant d * 2 ^ nat (expo d)) * one_scaled"
    by (simp only: scaled_def pow2_nonneg mult.assoc)
  have "valof d < 1 \<longleftrightarrow> mant d * 2 ^ nat (expo d) < 1"
    using True unfolding valof_def by (simp only: if_True of_nat_less_1_iff)
  also have "\<dots> \<longleftrightarrow> (mant d * 2 ^ nat (expo d)) * one_scaled < 1 * one_scaled"
    using one_scaled_pos by (simp only: mult_less_cancel2) simp
  finally show ?thesis using s by simp
next
  case False
  then have e: "expo d \<le> 0" by simp
  have "valof d < 1 \<longleftrightarrow> (of_nat (mant d) :: rat) < of_nat (2 ^ nat (- expo d))"
    using False by (simp add: valof_def)
  also have "\<dots> \<longleftrightarrow> mant d < 2 ^ nat (- expo d)" by (rule of_nat_less_iff)
  also have "\<dots> \<longleftrightarrow> mant d * 2 ^ nat (expo d + 1074) < 2 ^ nat (- expo d) * 2 ^ nat (expo d + 1074)"
    by (simp only: mult_less_cancel2) simp
  finally show ?thesis by (simp only: scaled_def pow2_split [OF assms e])
qed

subsection \<open>The product and the sum in generateRoomId\<close>

lemma product_bound:
  assumes m: "mant r < 2 ^ 53" and e: "- 1074 \<le> expo r" and r1: "scaled r < one_scaled"
  defines "P \<equiv> dmul r (Dbl 900000 0)"
  shows "mant P < 2 ^ 53" and "- 1074 \<le> expo P" and "scaled P < 900000 * one_scaled"
proof -
  define M where "M = mant r * 900000"
  define k where "k = bitlen M - 53"
  define t :: nat where "t = 2 ^ nat (expo r + 1074)"
  define x where "x = Dbl M (expo r)"
  have P: "P = fl x" by (simp add: P_def dmul_def x_def M_def)
  have ex: "- 1074 \<le> expo x" using e by (simp add: x_def)
  show "mant P < 2 ^ 53" unfolding P using ex by (rule fl_mant)
  show "- 1074 \<le> expo P" unfolding P using ex by (rule fl_expo)
  have t0: "0 < t" by (simp add: t_def)
  have sr: "scaled r = mant r * t" by (simp add: scaled_def t_def)
  have sP: "scaled P = rne M k * 2 ^ k * t"
    unfolding P using fl_scaled [OF ex] by (simp add: x_def k_def t_def)
  show "scaled P < 900000 * one_scaled"
  proof (cases "k = 0")
    case True
    then have "scaled P = 900000 * (mant r * t)" using sP by (simp add: rne_0 M_def)
    then show ?thesis using r1 sr by linarith
  next
    case False
    then have "\<not> bitlen M \<le> 53" by (simp add: k_def)
    then have M53: "2 ^ 53 \<le> M" by (simp add: bitlen_le_iff)
    then have mpos: "0 < mant r" by (cases "mant r = 0") (simp_all add: M_def)
    have "M < 2 ^ 53 * 900000" using m by (simp add: M_def)
    also have "\<dots> \<le> (2::nat) ^ 73" by simp
    finally have "bitlen M \<le> 73" by (simp only: bitlen_le_iff)
    then have "k \<le> 20" by (simp add: k_def)
    then have "(2::nat) ^ k \<le> 2 ^ 20" by (rule power_increasing) simp
    then have k20: "(2::nat) ^ k \<le> 1048576" by simp
    have eneg: "expo r \<le> 0"
    proof (rule ccontr)
      assume "\<not> expo r \<le> 0"
      then have "0 \<le> expo r" by simp
      then have "t = 2 ^ nat (expo r) * one_scaled" unfolding t_def by (rule pow2_nonneg)
      then have "one_scaled \<le> t" by simp
      moreover have "t \<le> mant r * t" using mpos by simp
      ultimately show False using r1 sr by linarith
    qed
    have W: "one_scaled = 2 ^ nat (- expo r) * t"
      unfolding t_def using pow2_split [OF e eneg] by simp
    have "mant r * t < 2 ^ nat (- expo r) * t" using r1 sr W by simp
    then have "mant r < 2 ^ nat (- expo r)" by simp
    then have "Suc (mant r) \<le> 2 ^ nat (- expo r)" by simp
    then have "Suc (mant r) * t \<le> 2 ^ nat (- expo r) * t" by (rule mult_le_mono1)
    then have mt: "mant r * t + t \<le> one_scaled" using W by simp
    have "2 * (rne M k * 2 ^ k) \<le> 2 * M + 2 ^ k" by (rule rne_upper)
    then have "2 * (rne M k * 2 ^ k) * t \<le> (2 * M + 2 ^ k) * t" by (rule mult_le_mono1)
    then have "2 * scaled P \<le> 1800000 * (mant r * t) + 2 ^ k * t"
      using sP by (simp add: M_def algebra_simps)
    also have "\<dots> \<le> 1800000 * (mant r * t) + 1048576 * t"
      using k20 by simp
    also have "\<dots> < 1800000 * (mant r * t + t)" using t0 by simp
    also have "\<dots> \<le> 1800000 * one_scaled" using mt by (simp only: mult_le_mono2)
    finally show ?thesis by linarith
  qed
qed

lemma sum_bound:
  assumes m: "mant P < 2 ^ 53" and e: "- 1074 \<le> expo P" and P9: "scaled P < 900000 * one_scaled"
  defines "S \<equiv> dadd (Dbl 100000 0) P"
  shows "- 1074 \<le> expo S" and "100000 * one_scaled \<le> scaled S"
    and "scaled S < 1000000 * one_scaled"
proof -
  define e' where "e' = min 0 (expo P)"
  define M where "M = 100000 * 2 ^ nat (- e') + mant P * 2 ^ nat (expo P - e')"
  define k where "k = bitlen M - 53"
  define u :: nat where "u = 2 ^ nat (e' + 1074)"
  define x where "x = Dbl M e'"
  define W :: nat where "W = one_scaled"
  have S: "S = fl x" by (simp add: S_def dadd_def Let_def x_def M_def e'_def)
  have e'lo: "- 1074 \<le> e'" and e'hi: "e' \<le> 0" using e by (simp_all add: e'_def)
  have ex: "- 1074 \<le> expo x" using e'lo by (simp add: x_def)
  show "- 1074 \<le> expo S" unfolding S using ex by (rule fl_expo)
  have u0: "0 < u" by (simp add: u_def)
  have Wu: "W = 2 ^ nat (- e') * u"
    unfolding u_def W_def using pow2_split [OF e'lo e'hi] by simp
  have "nat (expo P - e') + nat (e' + 1074) = nat (expo P + 1074)"
    using e'lo by (simp add: e'_def)
  then have "(2::nat) ^ nat (expo P - e') * u = 2 ^ nat (expo P + 1074)"
    unfolding u_def by (simp only: power_add [symmetric])
  then have "mant P * 2 ^ nat (expo P - e') * u = scaled P"
    by (simp add: scaled_def mult.assoc)
  then have sx: "M * u = 100000 * W + scaled P"
    using Wu by (simp add: M_def algebra_simps)
  have sS: "scaled S = rne M k * 2 ^ k * u"
    unfolding S using fl_scaled [OF ex] by (simp add: x_def k_def u_def)
  have goal: "100000 * W \<le> scaled S \<and> scaled S < 1000000 * W"
  proof (cases "k = 0")
    case True
    then have "scaled S = M * u" using sS by (simp add: rne_0)
    then show ?thesis using sx P9 by (simp add: W_def)
  next
    case False
    then have "\<not> bitlen M \<le> 52 + k" by (simp add: k_def)
    then have Mlo: "2 ^ (52 + k) \<le> M" by (simp add: bitlen_le_iff)
    have "M * u < 1000000 * W" using sx P9 by (simp add: W_def)
    also have "\<dots> \<le> 2 ^ 20 * W" by simp
    also have "\<dots> = 2 ^ (20 + nat (- e')) * u" by (simp add: Wu power_add)
    finally have "M < 2 ^ (20 + nat (- e'))" by simp
    with Mlo have "(2::nat) ^ (52 + k) < 2 ^ (20 + nat (- e'))" by (rule le_less_trans)
    then have "52 + k < 20 + nat (- e')" by simp
    then have big: "33 + k \<le> nat (- e')" by simp
    then have "e' < 0" using False by simp
    then have eq: "expo P = e'" by (simp add: e'_def min_def split: if_splits)
    define j where "j = nat (- e') - k"
    have jk: "nat (- e') = j + k" using big by (simp add: j_def)
    have "100000 * 2 ^ j * 2 ^ k \<le> M" by (simp add: M_def jk power_add)
    then have "100000 * 2 ^ j \<le> rne M k" by (rule rne_lower)
    then have "100000 * 2 ^ j * (2 ^ k * u) \<le> rne M k * (2 ^ k * u)" by (rule mult_le_mono1)
    then have lower: "100000 * W \<le> scaled S"
      by (simp add: sS Wu jk power_add algebra_simps)
    have "34 \<le> nat (- e')" using big False by simp
    then have "(2::nat) ^ 34 \<le> 2 ^ nat (- e')" by (rule power_increasing) simp
    then have "(2::nat) ^ 34 * u \<le> W" unfolding Wu by (rule mult_le_mono1)
    then have W34: "17179869184 * u \<le> W" by simp
    have "scaled P = mant P * u" by (simp add: scaled_def u_def eq)
    also have "\<dots> < 2 ^ 53 * u" using m u0 by simp
    also have "\<dots> = 524288 * (17179869184 * u)" by simp
    also have "\<dots> \<le> 524288 * W" using W34 by (simp only: mult_le_mono2)
    finally have sP: "scaled P < 524288 * W" .
    have "(2::nat) ^ k \<le> 2 ^ (52 + k)" by (rule power_increasing) simp_all
    then have "2 ^ k \<le> M" using Mlo by (rule order_trans)
    then have ku: "2 ^ k * u \<le> M * u" by (rule mult_le_mono1)
    have "2 * (rne M k * 2 ^ k) \<le> 2 * M + 2 ^ k" by (rule rne_upper)
    then have "2 * (rne M k * 2 ^ k) * u \<le> (2 * M + 2 ^ k) * u" by (rule mult_le_mono1)
    then have "2 * scaled S \<le> 2 * (M * u) + 2 ^ k * u"
      using sS by (simp add: algebra_simps)
    also have "\<dots> \<le> 3 * (M * u)" using ku by simp
    also have "\<dots> < 3 * (624288 * W)" using sx sP by simp
    finally have "scaled S < 1000000 * W" by simp
    with lower show ?thesis by simp
  qed
  show "100000 * one_scaled \<le> scaled S" using goal by (simp add: W_def)
  show "scaled S < 1000000 * one_scaled" using goal by (simp add: W_def)
qed

lemma digits_small: "n < 10 \<Longrightarrow> digits n = [digit n]"
  by (subst digits.simps) simp

lemma digits_large: "10 \<le> n \<Longrightarrow> digits n = digits (n div 10) @ [digit (n mod 10)]"
  by (subst digits.simps) simp

lemma digits_six:
  assumes "100000 \<le> n" and "n \<le> 999999"
  shows "digits n = [digit (n div 100000), digit (n div 10000 mod 10), digit (n div 1000 mod 10),
                     digit (n div 100 mod 10), digit (n div 10 mod 10), digit (n mod 10)]"
proof -
  have s1: "n div 100000 < 10" using assms by (simp add: div_less_iff_less_mult)
  have s2: "10 \<le> n div 10000" using assms by (simp add: less_eq_div_iff_mult_less_eq)
  have s3: "10 \<le> n div 1000" using assms by (simp add: less_eq_div_iff_mult_less_eq)
  have s4: "10 \<le> n div 100" using assms by (simp add: less_eq_div_iff_mult_less_eq)
  have s5: "10 \<le> n div 10" using assms by (simp add: less_eq_div_iff_mult_less_eq)
  have s6: "10 \<le> n" using assms by simp
  have d1: "digits (n div 100000) = [digit (n div 100000)]"
    using s1 by (rule digits_small)
  have d2: "digits (n div 10000) = digits (n div 100000) @ [digit (n div 10000 mod 10)]"
    using digits_large [OF s2] by (simp add: div_mult2_eq [symmetric])
  have d3: "digits (n div 1000) = digits (n div 10000) @ [digit (n div 1000 mod 10)]"
    using digits_large [OF s3] by (simp add: div_mult2_eq [symmetric])
  have d4: "digits (n div 100) = digits (n div 1000) @ [digit (n div 100 mod 10)]"
    using digits_large [OF s4] by (simp add: div_mult2_eq [symmetric])
  have d5: "digits (n div 10) = digits (n div 100) @ [digit (n div 10 mod 10)]"
    using digits_large [OF s5] by (simp add: div_mult2_eq [symmetric])
  have d6: "digits n = digits (n div 10) @ [digit (n mod 10)]"
    using s6 by (rule digits_large)
  show ?thesis by (simp add: d1 d2 d3 d4 d5 d6)
qed

lemma unat_digit: "d < 10 \<Longrightarrow> unat (digit d) = 48 + d"
proof -
  assume d: "d < 10"
  have "unat (digit d) = (48 + d) mod 2 ^ LENGTH(16)"
    unfolding digit_def by (rule unat_of_nat)
  also have "\<dots> = 48 + d" using d by simp
  finally show ?thesis .
qed

lemma digit_is_decimal: "d < 10 \<Longrightarrow> is_decimal_digit (digit d)"
  by (simp add: is_decimal_digit_def unat_digit)

lemma decimal_value_snoc:
  "decimal_value (s @ [c]) = 10 * decimal_value s + (unat c - 48)"
  by (simp add: decimal_value_def)

lemma decimal_value_digits: "decimal_value (digits n) = n"
proof (induction n rule: digits.induct)
  case (1 n)
  show ?case
  proof (cases "n < 10")
    case True
    then show ?thesis by (simp add: digits_small decimal_value_def unat_digit)
  next
    case False
    then have "decimal_value (digits n) = 10 * decimal_value (digits (n div 10)) + n mod 10"
      by (simp add: digits_large decimal_value_snoc unat_digit)
    then show ?thesis using "1.IH" [OF False] by simp
  qed
qed

lemma roomId_floor_range:
  assumes "is_double r" and "valof r < 1"
  shows "\<exists>n. Math_floor (dadd (Dbl 100000 0) (dmul r (Dbl 900000 0))) = int n \<and>
             100000 \<le> n \<and> n \<le> 999999"
proof -
  define P where "P = dmul r (Dbl 900000 0)"
  define S where "S = dadd (Dbl 100000 0) P"
  have m: "mant r < 2 ^ 53" and e: "- 1074 \<le> expo r"
    using assms(1) by (simp_all add: is_double_def)
  have r1: "scaled r < one_scaled" using assms(2) valof_scaled [OF e] by simp
  note p = product_bound [OF m e r1, folded P_def]
  note s = sum_bound [OF p, folded S_def]
  have fl: "Math_floor S = int (scaled S div one_scaled)" using s(1) by (rule floor_scaled)
  have lo: "100000 \<le> scaled S div one_scaled"
    using s(2) one_scaled_pos by (simp add: less_eq_div_iff_mult_less_eq)
  have hi: "scaled S div one_scaled < 1000000"
    using s(3) one_scaled_pos by (simp add: div_less_iff_less_mult)
  show ?thesis
    unfolding P_def [symmetric] S_def [symmetric] using fl lo hi
    by (intro exI [of _ "scaled S div one_scaled"]) simp
qed


lemma bitlen_0: "bitlen 0 = 0"
  by (simp add: bitlen.simps)

lemma bitlen_pos: "0 < n \<Longrightarrow> bitlen n = Suc (bitlen (n div 2))"
  by (subst bitlen.simps) simp

subsection \<open>Room ids\<close>

text \<open>
  C10. For every double \<open>r\<close> in \<open>[0, 1)\<close> that the random draw returns,
  \<open>generateRoomId\<close> returns the decimal representation of the integer
  \<open>Math.floor(100000 + r * 900000)\<close>, product and sum computed as doubles; that integer
  lies between 100000 and 999999 inclusive, so the id is a string of exactly six decimal
  digits.
\<close>

theorem generateRoomId_six_digits:
  assumes "is_double r" and "valof r < 1"
  shows "\<exists>n. Math_floor (dadd (Dbl 100000 0) (dmul r (Dbl 900000 0))) = int n \<and>
             100000 \<le> n \<and> n \<le> 999999 \<and>
             generateRoomId r = digits n \<and>
             decimal_value (generateRoomId r) = n \<and>
             length (generateRoomId r) = 6 \<and>
             list_all is_decimal_digit (generateRoomId r)"
proof -
  obtain n where fl: "Math_floor (dadd (Dbl 100000 0) (dmul r (Dbl 900000 0))) = int n"
    and lo: "100000 \<le> n" and hi: "n \<le> 999999"
    using roomId_floor_range [OF assms] by blast
  have g: "generateRoomId r = digits n"
    by (simp add: generateRoomId_def Number_toString_def fl)
  have six: "digits n = [digit (n div 100000), digit (n div 10000 mod 10),
                         digit (n div 1000 mod 10), digit (n div 100 mod 10),
                         digit (n div 10 mod 10), digit (n mod 10)]"
    using lo hi by (rule digits_six)
  have lead: "n div 100000 < 10" using hi by (simp add: div_less_iff_less_mult)
  have len: "length (generateRoomId r) = 6" by (simp add: g six)
  have dec: "list_all is_decimal_digit (generateRoomId r)"
    using lead by (simp add: g six digit_is_decimal)
  have val: "decimal_value (generateRoomId r) = n" by (simp only: g decimal_value_digits)
  show ?thesis using fl lo hi g val len dec by blast
qed


theorem generateRoomId_six_digits_witness:
  "is_double (Dbl 9007199254740991 (- 53)) \<and>
   valof (Dbl 9007199254740991 (- 53)) < 1 \<and>
   generateRoomId (Dbl 9007199254740991 (- 53)) = lit ''999999'' \<and>
   generateRoomId (Dbl 1 (- 1)) = lit ''550000'' \<and>
   length (generateRoomId (Dbl 9007199254740991 (- 53))) = 6"
proof -
  have d: "is_double (Dbl 9007199254740991 (- 53))" by (simp add: is_double_def)
  have v: "valof (Dbl 9007199254740991 (- 53)) < 1" by (simp add: valof_def)
  have g: "generateRoomId (Dbl 9007199254740991 (- 53)) = lit ''999999''"
    by (simp add: generateRoomId_def dmul_def dadd_def fl_def Let_def rne_def
        Math_floor_def Number_toString_def bitlen_0 bitlen_pos digits_small digits_large
        digit_def lit_def)
  have h: "generateRoomId (Dbl 1 (- 1)) = lit ''550000''"
    by (simp add: generateRoomId_def dmul_def dadd_def fl_def Let_def rne_def
        Math_floor_def Number_toString_def bitlen_0 bitlen_pos digits_small digits_large
        digit_def lit_def)
  from generateRoomId_six_digits [OF d v]
  have "length (generateRoomId (Dbl 9007199254740991 (- 53))) = 6" by blast
  with d v g h show ?thesis by simp
qed

text \<open>
  The floor is taken of the rounded sum, not of the exact one. At the largest double
  below one half the exact value of \<open>100000 + r * 900000\<close> is below 550000, and the
  two roundings make the id \<open>550000\<close>.
\<close>

lemma generateRoomId_rounds_up:
  "100000 + valof (Dbl 9007199254740991 (- 54)) * 900000 < 550000 \<and>
   generateRoomId (Dbl 9007199254740991 (- 54)) = lit ''550000''"
proof
  show "100000 + valof (Dbl 9007199254740991 (- 54)) * 900000 < 550000"
    by (simp add: valof_def)
  show "generateRoomId (Dbl 9007199254740991 (- 54)) = lit ''550000''"
    by (simp add: generateRoomId_def dmul_def dadd_def fl_def Let_def rne_def
        Math_floor_def Number_toString_def bitlen_0 bitlen_pos digits_small digits_large
        digit_def lit_def)
qed

end
